theory Spec2Isabelle
  imports Complex_Main "HOL-Library.Word"
begin

section \<open>Strings as the controllers use them\<close>

text \<open>
  File names, extensions, keys and URLs are \<^typ>\<open>string\<close>s, one \<^typ>\<open>char\<close> per code unit.
  Only the ASCII letters have a case here: \<open>toLowerCase\<close> maps \<open>A\<close>..\<open>Z\<close> to
  \<open>a\<close>..\<open>z\<close> and leaves every other character alone.
\<close>

definition lowerCode :: "nat \<Rightarrow> nat" where
  "lowerCode n = (if 65 \<le> n \<and> n \<le> 90 then n + 32 else n)"

definition upperCode :: "nat \<Rightarrow> nat" where
  "upperCode n = (if 97 \<le> n \<and> n \<le> 122 then n - 32 else n)"

definition toLowerChar :: "char \<Rightarrow> char" where
  "toLowerChar c = char_of (lowerCode (of_char c))"

definition toUpperChar :: "char \<Rightarrow> char" where
  "toUpperChar c = char_of (upperCode (of_char c))"

definition toLowerCase :: "string \<Rightarrow> string" where
  "toLowerCase s = map toLowerChar s"

definition toUpperCase :: "string \<Rightarrow> string" where
  "toUpperCase s = map toUpperChar s"

text \<open>\<open>s.startsWith(p)\<close>.\<close>

definition startsWith :: "string \<Rightarrow> string \<Rightarrow> bool" where
  "startsWith s p = (take (length p) s = p)"

text \<open>\<open>s.slice(a, b)\<close> for \<open>0 \<le> a\<close>, \<open>0 \<le> b\<close>.\<close>

definition slice :: "string \<Rightarrow> nat \<Rightarrow> nat \<Rightarrow> string" where
  "slice s a b = take (b - a) (drop a s)"

section \<open>The extension of a file name\<close>

text \<open>
  \<open>path.extname\<close> belongs to the Node.js runtime, not to the repository. It is written out
  here as the POSIX variant runs: one pass over the path from its last character to its
  first, which remembers the right-most dot (\<open>startDot\<close>), the end of the last path
  component (\<open>endPart\<close>), where that component starts (\<open>startPart\<close>) and what was seen to the
  left of the dot (\<open>preDotState\<close>). The value \<open>-1\<close> marks a position not yet found.
\<close>

record ext_scan =
  startDot :: int
  startPart :: int
  endPart :: int
  matchedSlash :: bool
  preDotState :: int

definition ext_scan_init :: ext_scan where
  "ext_scan_init =
     \<lparr>startDot = -1, startPart = 0, endPart = -1, matchedSlash = True, preDotState = 0\<rparr>"

text \<open>
  \<open>extname_loop path n st\<close> runs the loop body for \<open>i = n - 1\<close> down to \<open>0\<close>; the
  \<open>break\<close> at a path separator is the branch that does not recurse.
\<close>

fun extname_loop :: "string \<Rightarrow> nat \<Rightarrow> ext_scan \<Rightarrow> ext_scan" where
  "extname_loop path 0 st = st"
| "extname_loop path (Suc i) st =
     (if path ! i = CHR ''/'' then
        (if \<not> matchedSlash st then st\<lparr>startPart := int i + 1\<rparr>
         else extname_loop path i st)
      else
        (let st1 = (if endPart st = -1
                    then st\<lparr>endPart := int i + 1, matchedSlash := False\<rparr> else st);
             st2 = (if path ! i = CHR ''.'' then
                      (if startDot st1 = -1 then st1\<lparr>startDot := int i\<rparr>
                       else if preDotState st1 \<noteq> 1 then st1\<lparr>preDotState := 1\<rparr>
                       else st1)
                    else if startDot st1 \<noteq> -1 then st1\<lparr>preDotState := -1\<rparr>
                    else st1)
         in extname_loop path i st2))"

definition extname :: "string \<Rightarrow> string" where
  "extname path =
     (let st = extname_loop path (length path) ext_scan_init in
      if startDot st = -1 \<or> endPart st = -1 \<or> preDotState st = 0 \<or>
         (preDotState st = 1 \<and> startDot st = endPart st - 1 \<and> startDot st = startPart st + 1)
      then []
      else slice path (nat (startDot st)) (nat (endPart st)))"

section \<open>Type resolution of an archive entry\<close>

datatype media_kind = Image | Video | Audio | Document

datatype resolve_error = UnsupportedType

text \<open>The four tests of \<open>supportedTypes.some(...)\<close> in \<open>uploadZipArchive\<close>, in their order.\<close>

definition isSupportedType :: "string \<Rightarrow> bool" where
  "isSupportedType ext =
     (ext \<in> set [''.jpg'', ''.jpeg'', ''.png'', ''.gif'', ''.webp''] \<or>
      ext \<in> set [''.mp4'', ''.webm'', ''.mov'', ''.avi''] \<or>
      ext \<in> set [''.mp3'', ''.wav'', ''.ogg'', ''.m4a''] \<or>
      ext = ''.pdf'')"

definition mimeTypes :: "(string \<times> string) list" where
  "mimeTypes =
     [(''.jpg'', ''image/jpeg''), (''.jpeg'', ''image/jpeg''), (''.png'', ''image/png''),
      (''.gif'', ''image/gif''), (''.webp'', ''image/webp''), (''.mp4'', ''video/mp4''),
      (''.webm'', ''video/webm''), (''.mov'', ''video/quicktime''),
      (''.avi'', ''video/x-msvideo''), (''.mp3'', ''audio/mpeg''), (''.wav'', ''audio/wav''),
      (''.ogg'', ''audio/ogg''), (''.m4a'', ''audio/mp4''), (''.pdf'', ''application/pdf'')]"

text \<open>\<open>mimeTypes[ext.toLowerCase()] || 'application/octet-stream'\<close>.\<close>

definition getMimeType :: "string \<Rightarrow> string" where
  "getMimeType ext =
     (case map_of mimeTypes (toLowerCase ext) of
        Some m \<Rightarrow> m
      | None \<Rightarrow> ''application/octet-stream'')"

text \<open>The chain of \<open>startsWith\<close> tests that both upload handlers apply to a MIME type.\<close>

definition fileTypeOf :: "string \<Rightarrow> media_kind" where
  "fileTypeOf mimeType =
     (if startsWith mimeType ''image'' then Image
      else if startsWith mimeType ''video'' then Video
      else if startsWith mimeType ''audio'' then Audio
      else Document)"

text \<open>
  What \<open>uploadZipArchive\<close> derives from an entry's name before it uploads the entry: the
  lower-cased extension, the support test, the MIME type and the kind.
\<close>

definition resolveEntryType :: "string \<Rightarrow> resolve_error + (media_kind \<times> string)" where
  "resolveEntryType fileName =
     (let ext = toLowerCase (extname fileName) in
      if \<not> isSupportedType ext then Inl UnsupportedType
      else (let mimeType = getMimeType ext in Inr (fileTypeOf mimeType, mimeType)))"

section \<open>Splitting a string\<close>

text \<open>
  \<open>s.split(sep)\<close> for a string separator: the pieces between successive occurrences of
  \<open>sep\<close>, found from left to right. \<open>splitFrom sep cur rest\<close> has collected \<open>cur\<close> for the
  piece in progress and still has \<open>rest\<close> to read. With the empty separator the string
  falls apart into its characters.
\<close>

function splitFrom :: "string \<Rightarrow> string \<Rightarrow> string \<Rightarrow> string list" where
  "splitFrom sep cur [] = [cur]"
| "splitFrom sep cur (c # cs) =
     (if sep \<noteq> [] \<and> startsWith (c # cs) sep
      then cur # splitFrom sep [] (drop (length sep) (c # cs))
      else splitFrom sep (cur @ [c]) cs)"
  by pat_completeness auto
termination
  by (relation "measure (\<lambda>(sep, cur, rest). length rest)") auto

definition split :: "string \<Rightarrow> string \<Rightarrow> string list" where
  "split s sep = (if sep = [] then map (\<lambda>c. [c]) s else splitFrom sep [] s)"

text \<open>\<open>xs.pop()\<close> read for its value, and \<open>xs[i]\<close>: \<open>None\<close> is \<open>undefined\<close>.\<close>

definition pop :: "'a list \<Rightarrow> 'a option" where
  "pop xs = (if xs = [] then None else Some (last xs))"

definition elemAt :: "'a list \<Rightarrow> nat \<Rightarrow> 'a option" where
  "elemAt xs i = (if i < length xs then Some (xs ! i) else None)"

text \<open>A string or \<open>undefined\<close> inside a template literal.\<close>

definition interpolate :: "string option \<Rightarrow> string" where
  "interpolate v = (case v of None \<Rightarrow> ''undefined'' | Some s \<Rightarrow> s)"

section \<open>Storage keys\<close>

type_synonym buffer = "8 word list"

text \<open>A non-negative integer inside a template literal: its decimal digits.\<close>

definition digitChar :: "nat \<Rightarrow> char" where
  "digitChar d = ''0123456789'' ! d"

fun showNat :: "nat \<Rightarrow> string" where
  "showNat n = (if n < 10 then [digitChar n] else showNat (n div 10) @ [digitChar (n mod 10)])"

declare showNat.simps [simp del]

text \<open>\<open>buf.toString('hex')\<close>: two lower-case hexadecimal digits for each byte.\<close>

definition hexDigit :: "nat \<Rightarrow> char" where
  "hexDigit d = ''0123456789abcdef'' ! d"

definition hexByte :: "8 word \<Rightarrow> string" where
  "hexByte b = [hexDigit (unat b div 16), hexDigit (unat b mod 16)]"

definition toHex :: "buffer \<Rightarrow> string" where
  "toHex bs = concat (map hexByte bs)"

text \<open>
  \<open>generateMediaKey\<close> of \<open>aws.service.ts\<close>. The function reads the clock and the random
  source; here the two readings are its first two arguments: \<open>timestamp\<close> is the value of
  \<open>Date.now()\<close> and \<open>randomBytes\<close> the eight bytes of \<open>crypto.randomBytes(8)\<close>.
\<close>

definition generateMediaKey :: "nat \<Rightarrow> buffer \<Rightarrow> string \<Rightarrow> string \<Rightarrow> string" where
  "generateMediaKey timestamp randomBytes profileId fileName =
     (let hash = toHex randomBytes;
          extension = pop (split fileName ''.'')
      in ''media/'' @ profileId @ ''/'' @ showNat timestamp @ ''-'' @ hash @ ''.'' @
         interpolate extension)"

section \<open>Object URLs\<close>

text \<open>
  \<open>BUCKET_NAME\<close> is \<open>process.env.S3_BUCKET_NAME || 'profolia-portfolios'\<close>; the argument is
  the environment variable, \<open>None\<close> when it is not set.
\<close>

definition BUCKET_NAME :: "string option \<Rightarrow> string" where
  "BUCKET_NAME envBucket =
     (case envBucket of
        None \<Rightarrow> ''profolia-portfolios''
      | Some b \<Rightarrow> (if b = [] then ''profolia-portfolios'' else b))"

text \<open>The URL that \<open>uploadToS3\<close> returns for a key.\<close>

definition s3Url :: "string option \<Rightarrow> string \<Rightarrow> string" where
  "s3Url envBucket key = ''https://'' @ BUCKET_NAME envBucket @ ''.s3.amazonaws.com/'' @ key"

text \<open>
  The key that \<open>deleteMediaAsset\<close> hands to \<open>deleteFromS3\<close>:
  \<open>fileUrl.split(`${process.env.S3_BUCKET_NAME}/`)[1]\<close>.
\<close>

definition extractS3Key :: "string option \<Rightarrow> string \<Rightarrow> string option" where
  "extractS3Key envBucket fileUrl = elemAt (split fileUrl (interpolate envBucket @ ''/'')) 1"

section \<open>Values read from the classifier\<close>

text \<open>
  What \<open>JSON.parse\<close> can return. An object lists each of its properties once. A number
  is only ever tested for being zero.
\<close>

datatype json =
    JNull
  | JBool bool
  | JNum rat
  | JStr string
  | JArr "json list"
  | JObj "(string \<times> json) list"

datatype error =
    AppError string nat
  | ZipError
  | S3Error
  | AnthropicError
  | SyntaxError
  | TypeError
  | PrismaError

text \<open>The left operand of \<open>||\<close> counts when it is truthy.\<close>

fun truthy :: "json \<Rightarrow> bool" where
  "truthy JNull = False"
| "truthy (JBool b) = b"
| "truthy (JNum n) = (n \<noteq> 0)"
| "truthy (JStr s) = (s \<noteq> [])"
| "truthy (JArr xs) = True"
| "truthy (JObj kvs) = True"

text \<open>
  \<open>analysis[0]\<close>: reading a property of \<open>null\<close> throws a \<open>TypeError\<close>; a missing element or
  property is \<open>undefined\<close>, here \<open>None\<close>.
\<close>

fun elem0 :: "json \<Rightarrow> error + json option" where
  "elem0 JNull = Inl TypeError"
| "elem0 (JArr xs) = Inr (elemAt xs 0)"
| "elem0 (JObj kvs) = Inr (map_of kvs ''0'')"
| "elem0 (JStr s) = Inr (if s = [] then None else Some (JStr [hd s]))"
| "elem0 (JBool b) = Inr None"
| "elem0 (JNum n) = Inr None"

text \<open>\<open>mediaData.category\<close> and \<open>mediaData.tags\<close>, read from a truthy value.\<close>

fun getProp :: "json \<Rightarrow> string \<Rightarrow> json option" where
  "getProp (JObj kvs) k = map_of kvs k"
| "getProp v k = None"

text \<open>\<open>first || fallback\<close>.\<close>

definition orElse :: "json option \<Rightarrow> json \<Rightarrow> json" where
  "orElse first fallback =
     (case first of None \<Rightarrow> fallback | Some v \<Rightarrow> (if truthy v then v else fallback))"

text \<open>\<open>description || ''\<close>.\<close>

definition orEmpty :: "string option \<Rightarrow> string" where
  "orEmpty d = (case d of None \<Rightarrow> [] | Some s \<Rightarrow> s)"

definition defaultMediaData :: "string \<Rightarrow> json" where
  "defaultMediaData d =
     JObj [(''category'', JStr ''Uncategorized''), (''tags'', JArr []), (''description'', JStr d)]"

section \<open>Records of the media controller\<close>

record profile =
  pid :: string
  username :: string
  professionType :: string

text \<open>One element of the \<open>fileData\<close> array handed to \<open>analyzeMedia\<close>.\<close>

record file_desc =
  descFileName :: string
  descFileType :: media_kind
  description :: "string option"

text \<open>
  The data of \<open>prisma.mediaAsset.create\<close>. \<open>tags\<close> is the value given to
  \<open>JSON.stringify\<close> for the \<open>tags\<close> column and \<open>metadata\<close> the one given for the
  \<open>metadata\<close> column; \<open>None\<close> is \<open>undefined\<close>.
\<close>

record media_asset =
  profileId :: string
  fileName :: string
  fileType :: media_kind
  fileUrl :: string
  fileSize :: nat
  category :: "json option"
  tags :: "json option"
  metadata :: json

text \<open>The file that multer puts on the request.\<close>

record upload_file =
  originalname :: string
  mimetype :: string
  buffer :: buffer
  byteSize :: nat

record request =
  userId :: string
  reqFile :: "upload_file option"
  bodyDescription :: "string option"

text \<open>
  An entry of the archive as adm-zip presents it: \<open>name\<close> is the last component of the
  entry's path, and \<open>getData\<close> is \<open>None\<close> when \<open>entry.getData()\<close> throws.
\<close>

record zip_entry =
  isDirectory :: bool
  name :: string
  getData :: "buffer option"

text \<open>
  The reply of \<open>anthropic.messages.create\<close>, by what \<open>analyzeMedia\<close> makes of it: the call
  is rejected; the reply has no content block; its first block is not a text block; its
  first block is text that \<open>JSON.parse\<close> rejects once the code fences are removed; or
  that text parses to a value.
\<close>

datatype service_reply =
    CallRejected
  | EmptyContent
  | NonTextBlock
  | TextNotJson
  | TextJson json

text \<open>
  Everything outside the controller that decides how a request goes: the bucket variable,
  the clock and the random source (indexed by the number of keys made so far), the
  profile table, whether the Object Store accepts a put, the classifier service (indexed
  by the number of calls made so far), whether the Record Store accepts a row, and
  adm-zip reading a buffer (\<open>None\<close> when \<open>new AdmZip(buffer)\<close> or \<open>getEntries()\<close> throws).
\<close>

record env =
  envBucket :: "string option"
  now :: "nat \<Rightarrow> nat"
  randomBytes8 :: "nat \<Rightarrow> buffer"
  findProfile :: "string \<Rightarrow> profile option"
  s3Accepts :: "string \<Rightarrow> buffer \<Rightarrow> string \<Rightarrow> bool"
  classifier :: "nat \<Rightarrow> file_desc list \<Rightarrow> string \<Rightarrow> service_reply"
  dbAccepts :: "media_asset \<Rightarrow> bool"
  readZip :: "buffer \<Rightarrow> zip_entry list option"

text \<open>
  What the handlers change: the objects put into the bucket (key, body, content type), the
  rows of the media table, the calls made to the classifier, and how many keys were made.
\<close>

record world =
  s3Puts :: "(string \<times> buffer \<times> string) list"
  mediaAssets :: "media_asset list"
  aiCalls :: "(file_desc list \<times> string) list"
  keysMade :: nat

text \<open>A handler either answers with a status and a body or passes an error to \<open>next\<close>.\<close>

datatype 'a outcome = Responded nat 'a | NextError error

section \<open>The services\<close>

definition newMediaKey :: "env \<Rightarrow> string \<Rightarrow> string \<Rightarrow> world \<Rightarrow> string \<times> world" where
  "newMediaKey env owner file w =
     (generateMediaKey (now env (keysMade w)) (randomBytes8 env (keysMade w)) owner file,
      w\<lparr>keysMade := Suc (keysMade w)\<rparr>)"

definition uploadToS3 ::
  "env \<Rightarrow> string \<Rightarrow> buffer \<Rightarrow> string \<Rightarrow> world \<Rightarrow> (error + string) \<times> world" where
  "uploadToS3 env key body contentType w =
     (if s3Accepts env key body contentType
      then (Inr (s3Url (envBucket env) key), w\<lparr>s3Puts := s3Puts w @ [(key, body, contentType)]\<rparr>)
      else (Inl S3Error, w))"

text \<open>
  \<open>analyzeMedia\<close> of the AI service. Both copies of the service return the same: what
  \<open>JSON.parse\<close> gives for a text block, the empty array for another block, and every
  exception goes to the caller (the backend copy logs it first and throws it again).
\<close>

definition analyzeMedia ::
  "env \<Rightarrow> file_desc list \<Rightarrow> string \<Rightarrow> world \<Rightarrow> (error + json) \<times> world" where
  "analyzeMedia env fileData profession w =
     (let w' = w\<lparr>aiCalls := aiCalls w @ [(fileData, profession)]\<rparr> in
      case classifier env (length (aiCalls w)) fileData profession of
        CallRejected \<Rightarrow> (Inl AnthropicError, w')
      | EmptyContent \<Rightarrow> (Inl TypeError, w')
      | NonTextBlock \<Rightarrow> (Inr (JArr []), w')
      | TextNotJson \<Rightarrow> (Inl SyntaxError, w')
      | TextJson v \<Rightarrow> (Inr v, w'))"

definition createMediaAsset :: "env \<Rightarrow> media_asset \<Rightarrow> world \<Rightarrow> (error + media_asset) \<times> world" where
  "createMediaAsset env row w =
     (if dbAccepts env row then (Inr row, w\<lparr>mediaAssets := mediaAssets w @ [row]\<rparr>)
      else (Inl PrismaError, w))"

section \<open>The upload handlers\<close>

text \<open>
  The statements that \<open>uploadMediaFile\<close> and the loop of \<open>uploadZipArchive\<close> share word
  for word once the object is in the bucket: call \<open>analyzeMedia\<close> with the one file, take
  \<open>analysis[0]\<close> or the default, create the row. \<open>note\<close> is \<open>req.body.description\<close> for the
  single file and absent for an archive entry.
\<close>

definition classifyAndCreate ::
  "env \<Rightarrow> profile \<Rightarrow> string \<Rightarrow> media_kind \<Rightarrow> string \<Rightarrow> nat \<Rightarrow> string option \<Rightarrow> world \<Rightarrow>
   (error + media_asset) \<times> world" where
  "classifyAndCreate env prof file kind url bytes note w =
     (case analyzeMedia env
             [\<lparr>descFileName = file, descFileType = kind, description = note\<rparr>]
             (professionType prof) w of
        (Inl e, w1) \<Rightarrow> (Inl e, w1)
      | (Inr analysis, w1) \<Rightarrow>
          (case elem0 analysis of
             Inl e \<Rightarrow> (Inl e, w1)
           | Inr first \<Rightarrow>
               (let mediaData = orElse first (defaultMediaData (orEmpty note)) in
                createMediaAsset env
                  \<lparr>profileId = pid prof, fileName = file, fileType = kind, fileUrl = url,
                   fileSize = bytes, category = getProp mediaData ''category'',
                   tags = getProp mediaData ''tags'', metadata = mediaData\<rparr> w1)))"



text \<open>Why an entry is in the \<open>errors\<close> array: the fixed text, or \<open>String(fileError)\<close>.\<close>

datatype failure = UnsupportedFileType | Thrown error

type_synonym zip_acc = "media_asset list \<times> (string \<times> failure) list \<times> world"

text \<open>
  One turn of the loop over the entries. The three components are \<open>uploadedAssets\<close>,
  \<open>errors\<close> (file name and reason) and the world; every exception inside the \<open>try\<close> ends
  in the \<open>catch\<close>, which pushes \<open>entry.name\<close> with the error.
\<close>

definition processEntry :: "env \<Rightarrow> profile \<Rightarrow> zip_entry \<Rightarrow> zip_acc \<Rightarrow> zip_acc" where
  "processEntry env prof entry acc =
     (case acc of (uploadedAssets, errors, w) \<Rightarrow>
        if isDirectory entry then (uploadedAssets, errors, w)
        else
          (case getData entry of
             None \<Rightarrow> (uploadedAssets, errors @ [(name entry, Thrown ZipError)], w)
           | Some fileBuffer \<Rightarrow>
               (case resolveEntryType (name entry) of
                  Inl u \<Rightarrow> (uploadedAssets, errors @ [(name entry, UnsupportedFileType)], w)
                | Inr (kind, mimeType) \<Rightarrow>
                    (case newMediaKey env (pid prof) (name entry) w of
                       (key, w1) \<Rightarrow>
                         (case uploadToS3 env key fileBuffer mimeType w1 of
                            (Inl e, w2) \<Rightarrow>
                              (uploadedAssets, errors @ [(name entry, Thrown e)], w2)
                          | (Inr url, w2) \<Rightarrow>
                              (case classifyAndCreate env prof (name entry) kind url
                                      (length fileBuffer) None w2 of
                                 (Inl e, w3) \<Rightarrow>
                                   (uploadedAssets, errors @ [(name entry, Thrown e)], w3)
                               | (Inr asset, w3) \<Rightarrow>
                                   (uploadedAssets @ [asset], errors, w3)))))))"

primrec zipLoop :: "env \<Rightarrow> profile \<Rightarrow> zip_entry list \<Rightarrow> zip_acc \<Rightarrow> zip_acc" where
  "zipLoop env prof [] acc = acc"
| "zipLoop env prof (entry # rest) acc = zipLoop env prof rest (processEntry env prof entry acc)"

record summary =
  total :: nat
  successful :: nat
  failed :: nat

record zip_body =
  zipMessage :: string
  uploadedAssets :: "media_asset list"
  errors :: "(string \<times> failure) list option"
  summary :: summary

definition uploadZipArchive :: "env \<Rightarrow> request \<Rightarrow> world \<Rightarrow> zip_body outcome \<times> world" where
  "uploadZipArchive env req w =
     (case reqFile req of
        None \<Rightarrow> (NextError (AppError ''No ZIP file provided'' 400), w)
      | Some f \<Rightarrow>
          (case findProfile env (userId req) of
             None \<Rightarrow>
               (NextError (AppError ''Profile not found. Please create a profile first.'' 404), w)
           | Some prof \<Rightarrow>
               (case readZip env (buffer f) of
                  None \<Rightarrow> (NextError ZipError, w)
                | Some zipEntries \<Rightarrow>
                    (case zipLoop env prof zipEntries ([], [], w) of
                       (assets, errs, w') \<Rightarrow>
                         (Responded 201
                            \<lparr>zipMessage =
                               ''Uploaded '' @ showNat (length assets) @ '' files from ZIP'',
                             uploadedAssets = assets,
                             errors = (if length errs > 0 then Some errs else None),
                             summary =
                               \<lparr>total = length assets + length errs,
                                successful = length assets,
                                failed = length errs\<rparr>\<rparr>, w')))))"

section \<open>Outcomes of archive entries\<close>

text \<open>
  The outcome of one entry of an archive: the row created for it, or the name and reason
  pushed to \<open>errors\<close>.
\<close>

datatype entry_outcome = Uploaded media_asset | Failed string failure

primrec assetsOf :: "entry_outcome list \<Rightarrow> media_asset list" where
  "assetsOf [] = []"
| "assetsOf (out # outs) =
     (case out of Uploaded a \<Rightarrow> a # assetsOf outs | Failed n r \<Rightarrow> assetsOf outs)"

primrec failuresOf :: "entry_outcome list \<Rightarrow> (string \<times> failure) list" where
  "failuresOf [] = []"
| "failuresOf (out # outs) =
     (case out of Uploaded a \<Rightarrow> failuresOf outs | Failed n r \<Rightarrow> (n, r) # failuresOf outs)"

text \<open>
  An outcome belongs to an entry when it carries the entry's name; an entry whose type
  does not resolve can only fail.
\<close>

definition outcomeFor :: "zip_entry \<Rightarrow> entry_outcome \<Rightarrow> bool" where
  "outcomeFor entry out =
     (case out of
        Uploaded a \<Rightarrow> fileName a = name entry \<and> resolveEntryType (name entry) \<noteq> Inl UnsupportedType
      | Failed n r \<Rightarrow> n = name entry)"

text \<open>
  A row stands for an uploaded entry: the entry is a file whose type resolved to the
  row's kind, and among the given puts there is one of the entry's bytes under that
  content type whose URL is the row's URL.
\<close>

definition storedFor ::
  "env \<Rightarrow> (string \<times> buffer \<times> string) list \<Rightarrow> media_asset \<Rightarrow> zip_entry \<Rightarrow> bool" where
  "storedFor env puts a entry =
     (\<not> isDirectory entry \<and> fileName a = name entry \<and>
      (case resolveEntryType (name entry) of
         Inl u \<Rightarrow> False
       | Inr (kind, mimeType) \<Rightarrow>
           fileType a = kind \<and>
           (case getData entry of
              None \<Rightarrow> False
            | Some body \<Rightarrow>
                fileSize a = length body \<and>
                list_ex (\<lambda>(key, b, m). b = body \<and> m = mimeType \<and>
                                       fileUrl a = s3Url (envBucket env) key) puts)))"

text \<open>The entries that the archive of a request holds, when it can be read.\<close>

definition archiveEntries :: "env \<Rightarrow> request \<Rightarrow> zip_entry list" where
  "archiveEntries env req =
     (case reqFile req of
        None \<Rightarrow> []
      | Some f \<Rightarrow> (case readZip env (buffer f) of None \<Rightarrow> [] | Some zipEntries \<Rightarrow> zipEntries))"

text \<open>A call to the classifier for exactly one file, with the owner's profession as hint.\<close>

definition oneFileCall :: "profile \<Rightarrow> file_desc list \<times> string \<Rightarrow> bool" where
  "oneFileCall prof call = (length (fst call) = 1 \<and> snd call = professionType prof)"

section \<open>Sample requests\<close>

text \<open>
  One owner, an Object Store and a Record Store that accept everything, and a classifier
  whose reply has no text block. The archive \<open>PK\<close> holds a folder, \<open>a.jpg\<close>, \<open>b.mp4\<close> and
  \<open>c.exe\<close>; any other buffer is not an archive.
\<close>

definition sampleProfile :: profile where
  "sampleProfile = \<lparr>pid = ''p1'', username = ''ann'', professionType = ''photographer''\<rparr>"

definition sampleEntries :: "zip_entry list" where
  "sampleEntries =
     [\<lparr>isDirectory = True, name = ''shots'', getData = Some []\<rparr>,
      \<lparr>isDirectory = False, name = ''a.jpg'', getData = Some [255, 216, 255]\<rparr>,
      \<lparr>isDirectory = False, name = ''b.mp4'', getData = Some [0, 0]\<rparr>,
      \<lparr>isDirectory = False, name = ''c.exe'', getData = Some [77, 90]\<rparr>]"

definition sampleEnv :: env where
  "sampleEnv =
     \<lparr>envBucket = Some ''profolia-portfolios'',
      now = (\<lambda>n. 1700000000000 + n),
      randomBytes8 = (\<lambda>n. [1, 2, 3, 4, 5, 6, 7, of_nat n]),
      findProfile = (\<lambda>u. if u = ''u1'' then Some sampleProfile else None),
      s3Accepts = (\<lambda>key body contentType. True),
      classifier = (\<lambda>n fileData profession. NonTextBlock),
      dbAccepts = (\<lambda>row. True),
      readZip = (\<lambda>b. if b = [80, 75] then Some sampleEntries else None)\<rparr>"


definition malformedEnv :: env where
  "malformedEnv = sampleEnv\<lparr>classifier := (\<lambda>n fileData profession. TextNotJson)\<rparr>"

definition emptyWorld :: world where
  "emptyWorld = \<lparr>s3Puts = [], mediaAssets = [], aiCalls = [], keysMade = 0\<rparr>"



definition zipFile :: upload_file where
  "zipFile =
     \<lparr>originalname = ''shots.zip'', mimetype = ''application/zip'',
      buffer = [80, 75], byteSize = 2\<rparr>"

definition zipRequest :: request where
  "zipRequest = \<lparr>userId = ''u1'', reqFile = Some zipFile, bodyDescription = None\<rparr>"

definition brokenFile :: upload_file where
  "brokenFile =
     \<lparr>originalname = ''shots.zip'', mimetype = ''application/zip'',
      buffer = [1, 2, 3], byteSize = 3\<rparr>"

definition brokenRequest :: request where
  "brokenRequest = \<lparr>userId = ''u1'', reqFile = Some brokenFile, bodyDescription = None\<rparr>"

section \<open>Facts about case and extensions\<close>

lemma char_code_cases:
  obtains n :: nat where "c = char_of n" and "n < 256"
proof
  show "c = char_of (of_char c :: nat)" by (simp only: char_of_char)
  show "(of_char c :: nat) < 256" by (rule nat_of_char_less_256)
qed

lemma toLowerChar_code: "n < 256 \<Longrightarrow> toLowerChar (char_of n) = char_of (lowerCode n)"
  unfolding toLowerChar_def by (simp only: of_char_of mod_less)

lemma toUpperChar_code: "n < 256 \<Longrightarrow> toUpperChar (char_of n) = char_of (upperCode n)"
  unfolding toUpperChar_def by (simp only: of_char_of mod_less)

lemma lowerCode_less: "n < 256 \<Longrightarrow> lowerCode n < 256"
  by (simp add: lowerCode_def)

lemma upperCode_less: "n < 256 \<Longrightarrow> upperCode n < 256"
  unfolding upperCode_def by arith

lemma lowerCode_upperCode: "lowerCode (upperCode n) = lowerCode n"
  unfolding lowerCode_def upperCode_def by arith

lemma lowerCode_idem: "lowerCode (lowerCode n) = lowerCode n"
  by (simp add: lowerCode_def)

lemma lowerCode_eq_iff: "(k::nat) < 65 \<Longrightarrow> lowerCode n = k \<longleftrightarrow> n = k"
  by (auto simp add: lowerCode_def)

lemma toLowerChar_toUpperChar: "toLowerChar (toUpperChar c) = toLowerChar c"
proof (rule char_code_cases [of c])
  fix n :: nat assume c: "c = char_of n" and n: "n < 256"
  show ?thesis
    unfolding c
    by (simp only: toUpperChar_code [OF n] toLowerChar_code [OF n]
        toLowerChar_code [OF upperCode_less [OF n]] lowerCode_upperCode)
qed

lemma toLowerChar_idem: "toLowerChar (toLowerChar c) = toLowerChar c"
proof (rule char_code_cases [of c])
  fix n :: nat assume c: "c = char_of n" and n: "n < 256"
  show ?thesis
    unfolding c
    by (simp only: toLowerChar_code [OF n]
        toLowerChar_code [OF lowerCode_less [OF n]] lowerCode_idem)
qed

lemma toLowerChar_eq_low:
  fixes k :: nat
  assumes k: "k < 65"
  shows "toLowerChar c = char_of k \<longleftrightarrow> c = char_of k"
proof (rule char_code_cases [of c])
  fix n :: nat assume c: "c = char_of n" and n: "n < 256"
  have k256: "k < 256" using k by simp
  have "toLowerChar c = char_of k \<longleftrightarrow> lowerCode n mod 256 = k mod 256"
    unfolding c toLowerChar_code [OF n] by (rule char_of_quasi_inj)
  also have "\<dots> \<longleftrightarrow> lowerCode n = k"
    using lowerCode_less [OF n] k256 by simp
  also have "\<dots> \<longleftrightarrow> n = k" by (rule lowerCode_eq_iff [OF k])
  also have "\<dots> \<longleftrightarrow> n mod 256 = k mod 256" using n k256 by simp
  also have "\<dots> \<longleftrightarrow> c = char_of k" unfolding c by (rule char_of_quasi_inj [symmetric])
  finally show ?thesis .
qed

lemma dot_code: "CHR ''.'' = char_of (46::nat)" by code_simp
lemma slash_code: "CHR ''/'' = char_of (47::nat)" by code_simp

lemma toLowerChar_dot: "toLowerChar c = CHR ''.'' \<longleftrightarrow> c = CHR ''.''"
  unfolding dot_code by (rule toLowerChar_eq_low) simp

lemma toLowerChar_slash: "toLowerChar c = CHR ''/'' \<longleftrightarrow> c = CHR ''/''"
  unfolding slash_code by (rule toLowerChar_eq_low) simp

lemma toLowerCase_toUpperCase: "toLowerCase (toUpperCase s) = toLowerCase s"
  by (simp add: toLowerCase_def toUpperCase_def toLowerChar_toUpperChar)

lemma toLowerCase_idem: "toLowerCase (toLowerCase s) = toLowerCase s"
  by (simp add: toLowerCase_def toLowerChar_idem)

lemma toLowerCase_append: "toLowerCase (s @ t) = toLowerCase s @ toLowerCase t"
  by (simp add: toLowerCase_def)

text \<open>The scan looks at a character only to ask whether it is a dot or a slash.\<close>

lemma extname_loop_map:
  assumes dot: "\<And>c. f c = CHR ''.'' \<longleftrightarrow> c = CHR ''.''"
    and slash: "\<And>c. f c = CHR ''/'' \<longleftrightarrow> c = CHR ''/''"
  shows "n \<le> length path \<Longrightarrow> extname_loop (map f path) n st = extname_loop path n st"
proof (induction n arbitrary: st)
  case 0
  then show ?case by simp
next
  case (Suc n)
  then have n: "n < length path" and le: "n \<le> length path" by simp_all
  have nth: "map f path ! n = f (path ! n)" using n by simp
  show ?case
    unfolding extname_loop.simps nth dot slash
    by (simp add: Suc.IH [OF le] Let_def)
qed

lemma extname_map:
  assumes dot: "\<And>c. f c = CHR ''.'' \<longleftrightarrow> c = CHR ''.''"
    and slash: "\<And>c. f c = CHR ''/'' \<longleftrightarrow> c = CHR ''/''"
  shows "extname (map f path) = map f (extname path)"
  by (simp add: extname_def Let_def slice_def extname_loop_map [OF dot slash] take_map drop_map)

lemma extname_toLowerCase: "extname (toLowerCase path) = toLowerCase (extname path)"
  unfolding toLowerCase_def by (rule extname_map [OF toLowerChar_dot toLowerChar_slash])

text \<open>Names that differ only in the case of their letters resolve alike.\<close>

lemma resolveEntryType_cong:
  assumes "toLowerCase a = toLowerCase b"
  shows "resolveEntryType a = resolveEntryType b"
proof -
  have "toLowerCase (extname a) = toLowerCase (extname b)"
    using assms by (simp add: extname_toLowerCase [symmetric])
  then show ?thesis by (simp add: resolveEntryType_def)
qed

section \<open>Facts about splitting and keys\<close>

lemma startsWith_single: "startsWith (c # cs) [d] \<longleftrightarrow> c = d"
  by (simp add: startsWith_def)

lemma splitFrom_not_Nil: "splitFrom sep cur s \<noteq> []"
  by (induction s arbitrary: cur) simp_all

lemma splitFrom_absent: "d \<notin> set s \<Longrightarrow> splitFrom [d] cur s = [cur @ s]"
  by (induction s arbitrary: cur) (auto simp add: startsWith_single)

lemma last_splitFrom:
  "d \<notin> set e \<Longrightarrow> last (splitFrom [d] cur (a @ d # e)) = e"
proof (induction a arbitrary: cur)
  case Nil
  then show ?case by (simp add: startsWith_single splitFrom_absent)
next
  case (Cons x a)
  then show ?case by (simp add: startsWith_single splitFrom_not_Nil)
qed

lemma pop_split_extension:
  "CHR ''.'' \<notin> set e \<Longrightarrow> pop (split (stem @ ''.'' @ e) ''.'') = Some e"
  using last_splitFrom [of "CHR ''.''" e "[]" stem]
  by (simp add: pop_def split_def splitFrom_not_Nil)

lemma pop_split_no_dot:
  "CHR ''.'' \<notin> set f \<Longrightarrow> pop (split f ''.'') = Some f"
  by (simp add: pop_def split_def splitFrom_absent)

text \<open>Decimal digits and hexadecimal digits are read back without loss.\<close>

lemma digitChar_inj: "a < 10 \<Longrightarrow> b < 10 \<Longrightarrow> digitChar a = digitChar b \<Longrightarrow> a = b"
proof -
  assume a: "a < 10" and b: "b < 10" and eq: "digitChar a = digitChar b"
  have d: "distinct ''0123456789''" by simp
  have "length ''0123456789'' = 10" by simp
  with a b eq d show "a = b"
    unfolding digitChar_def by (simp only: nth_eq_iff_index_eq)
qed

lemma hexDigit_inj: "a < 16 \<Longrightarrow> b < 16 \<Longrightarrow> hexDigit a = hexDigit b \<Longrightarrow> a = b"
proof -
  assume a: "a < 16" and b: "b < 16" and eq: "hexDigit a = hexDigit b"
  have d: "distinct ''0123456789abcdef''" by simp
  have "length ''0123456789abcdef'' = 16" by simp
  with a b eq d show "a = b"
    unfolding hexDigit_def by (simp only: nth_eq_iff_index_eq)
qed

lemma showNat_not_Nil: "showNat n \<noteq> []" and Nil_not_showNat: "[] \<noteq> showNat n"
  by (subst showNat.simps, simp)+

lemma showNat_inj: "showNat a = showNat b \<Longrightarrow> a = b"
proof (induction a arbitrary: b rule: showNat.induct)
  case (1 a)
  show ?case
  proof (cases "a < 10")
    case small_a: True
    show ?thesis
    proof (cases "b < 10")
      case True
      with small_a "1.prems" show ?thesis
        by (simp add: showNat.simps [of a] showNat.simps [of b] digitChar_inj)
    next
      case False
      with small_a "1.prems" show ?thesis
        by (simp add: showNat.simps [of a] showNat.simps [of b] showNat_not_Nil Nil_not_showNat)
    qed
  next
    case big_a: False
    show ?thesis
    proof (cases "b < 10")
      case True
      with big_a "1.prems" show ?thesis
        by (simp add: showNat.simps [of a] showNat.simps [of b] showNat_not_Nil Nil_not_showNat)
    next
      case False
      with big_a "1.prems" have q: "showNat (a div 10) = showNat (b div 10)"
        and r: "digitChar (a mod 10) = digitChar (b mod 10)"
        by (simp_all add: showNat.simps [of a] showNat.simps [of b])
      from q have "a div 10 = b div 10" by (rule "1.IH" [OF big_a])
      moreover from r have "a mod 10 = b mod 10" by (simp add: digitChar_inj)
      ultimately show ?thesis by (metis div_mult_mod_eq)
    qed
  qed
qed

lemma hexByte_inj: "hexByte a = hexByte b \<Longrightarrow> a = b"
proof -
  assume eq: "hexByte a = hexByte b"
  have ua: "unat a < 256" and ub: "unat b < 256"
    using unsigned_less [of a] unsigned_less [of b] by simp_all
  then have "unat a div 16 < 16" and "unat b div 16 < 16" by simp_all
  with eq have q: "unat a div 16 = unat b div 16"
    by (simp add: hexByte_def hexDigit_inj)
  from eq have r: "unat a mod 16 = unat b mod 16"
    by (simp add: hexByte_def hexDigit_inj)
  from q r have "unat a = unat b" by (metis div_mult_mod_eq)
  then show "a = b" by (simp add: word_unat_eq_iff)
qed

lemma length_toHex: "length (toHex bs) = 2 * length bs"
  by (induction bs) (simp_all add: toHex_def hexByte_def)

lemma toHex_inj: "toHex xs = toHex ys \<Longrightarrow> xs = ys"
proof (induction xs arbitrary: ys)
  case Nil
  then show ?case by (cases ys) (simp_all add: toHex_def hexByte_def)
next
  case (Cons x xs)
  show ?case
  proof (cases ys)
    case Nil
    with Cons.prems show ?thesis by (simp add: toHex_def hexByte_def)
  next
    case (Cons y ys')
    with Cons.prems have "hexByte x @ toHex xs = hexByte y @ toHex ys'"
      by (simp add: toHex_def)
    moreover have "length (hexByte x) = length (hexByte y)" by (simp add: hexByte_def)
    ultimately have "hexByte x = hexByte y" and "toHex xs = toHex ys'" by simp_all
    then show ?thesis using Cons Cons.IH hexByte_inj by simp
  qed
qed

text \<open>The uniqueness token of a key determines the clock reading and the random bytes.\<close>

lemma token_inj:
  assumes len: "length r1 = length r2"
    and eq: "showNat t1 @ ''-'' @ toHex r1 = showNat t2 @ ''-'' @ toHex r2"
  shows "t1 = t2 \<and> r1 = r2"
proof -
  have "(showNat t1 @ ''-'') @ toHex r1 = (showNat t2 @ ''-'') @ toHex r2"
    using eq by simp
  moreover have "length (toHex r1) = length (toHex r2)"
    using len by (simp add: length_toHex)
  ultimately have "showNat t1 @ ''-'' = showNat t2 @ ''-''" and "toHex r1 = toHex r2"
    by (metis append_eq_append_conv)+
  then show ?thesis using showNat_inj toHex_inj by simp
qed

lemma showNat_example: "showNat 1700000000000 = ''1700000000000''"
  by (simp add: showNat.simps digitChar_def)

lemma toHex_example: "toHex [1, 2, 3, 4, 5, 6, 7, 255] = ''01020304050607ff''"
  by code_simp

section \<open>Facts about the services\<close>

lemma newMediaKey_world:
  assumes "newMediaKey env owner file w = (key, w1)"
  shows "s3Puts w1 = s3Puts w" and "mediaAssets w1 = mediaAssets w" and "aiCalls w1 = aiCalls w"
  using assms by (auto simp add: newMediaKey_def)

lemma uploadToS3_Inr:
  assumes "uploadToS3 env key body ct w = (Inr url, w')"
  shows "url = s3Url (envBucket env) key" and "s3Puts w' = s3Puts w @ [(key, body, ct)]"
    and "mediaAssets w' = mediaAssets w" and "aiCalls w' = aiCalls w"
  using assms by (auto simp add: uploadToS3_def split: if_splits)

lemma uploadToS3_Inl:
  assumes "uploadToS3 env key body ct w = (Inl e, w')"
  shows "w' = w"
  using assms by (auto simp add: uploadToS3_def split: if_splits)

lemma analyzeMedia_world:
  assumes "analyzeMedia env fileData profession w = (res, w')"
  shows "s3Puts w' = s3Puts w" and "mediaAssets w' = mediaAssets w"
    and "aiCalls w' = aiCalls w @ [(fileData, profession)]"
  using assms by (auto simp add: analyzeMedia_def Let_def split: service_reply.splits)

lemma createMediaAsset_Inr:
  assumes "createMediaAsset env row w = (Inr a, w')"
  shows "a = row" and "mediaAssets w' = mediaAssets w @ [row]" and "s3Puts w' = s3Puts w"
    and "aiCalls w' = aiCalls w"
  using assms by (auto simp add: createMediaAsset_def split: if_splits)

lemma createMediaAsset_Inl:
  assumes "createMediaAsset env row w = (Inl e, w')"
  shows "w' = w"
  using assms by (auto simp add: createMediaAsset_def split: if_splits)

lemma classifyAndCreate_Inr:
  assumes "classifyAndCreate env prof file kind url bytes note w = (Inr a, w')"
  shows "fileName a = file" and "fileType a = kind" and "fileUrl a = url" and "fileSize a = bytes"
    and "mediaAssets w' = mediaAssets w @ [a]" and "s3Puts w' = s3Puts w"
    and "aiCalls w' = aiCalls w @
           [([\<lparr>descFileName = file, descFileType = kind, description = note\<rparr>], professionType prof)]"
proof -
  obtain res w1 where am: "analyzeMedia env
      [\<lparr>descFileName = file, descFileType = kind, description = note\<rparr>] (professionType prof) w
      = (res, w1)"
    by (cases "analyzeMedia env
      [\<lparr>descFileName = file, descFileType = kind, description = note\<rparr>] (professionType prof) w")
  from assms am obtain analysis first where res: "res = Inr analysis"
    and first: "elem0 analysis = Inr first"
    and cr: "createMediaAsset env
        \<lparr>profileId = pid prof, fileName = file, fileType = kind, fileUrl = url,
         fileSize = bytes,
         category = getProp (orElse first (defaultMediaData (orEmpty note))) ''category'',
         tags = getProp (orElse first (defaultMediaData (orEmpty note))) ''tags'',
         metadata = orElse first (defaultMediaData (orEmpty note))\<rparr> w1 = (Inr a, w')"
    by (auto simp add: classifyAndCreate_def Let_def split: sum.splits)
  note w1 = analyzeMedia_world [OF am]
  note c = createMediaAsset_Inr [OF cr]
  show "fileName a = file" and "fileType a = kind" and "fileUrl a = url" and "fileSize a = bytes"
    using c(1) by simp_all
  show "mediaAssets w' = mediaAssets w @ [a]" using c(1,2) w1(2) by simp
  show "s3Puts w' = s3Puts w" using c(3) w1(1) by simp
  show "aiCalls w' = aiCalls w @
           [([\<lparr>descFileName = file, descFileType = kind, description = note\<rparr>], professionType prof)]"
    using c(4) w1(3) by simp
qed

lemma classifyAndCreate_Inl:
  assumes "classifyAndCreate env prof file kind url bytes note w = (Inl e, w')"
  shows "mediaAssets w' = mediaAssets w" and "s3Puts w' = s3Puts w"
    and "aiCalls w' = aiCalls w @
           [([\<lparr>descFileName = file, descFileType = kind, description = note\<rparr>], professionType prof)]"
proof -
  obtain res w1 where am: "analyzeMedia env
      [\<lparr>descFileName = file, descFileType = kind, description = note\<rparr>] (professionType prof) w
      = (res, w1)"
    by (cases "analyzeMedia env
      [\<lparr>descFileName = file, descFileType = kind, description = note\<rparr>] (professionType prof) w")
  note w1 = analyzeMedia_world [OF am]
  from assms am have "w' = w1"
    by (auto simp add: classifyAndCreate_def Let_def split: sum.splits dest: createMediaAsset_Inl)
  with w1 show "mediaAssets w' = mediaAssets w" and "s3Puts w' = s3Puts w"
    and "aiCalls w' = aiCalls w @
           [([\<lparr>descFileName = file, descFileType = kind, description = note\<rparr>], professionType prof)]"
    by simp_all
qed

section \<open>Facts about the archive loop\<close>

lemma assetsOf_append: "assetsOf (xs @ ys) = assetsOf xs @ assetsOf ys"
  by (induction xs) (simp_all split: entry_outcome.splits)

lemma failuresOf_append: "failuresOf (xs @ ys) = failuresOf xs @ failuresOf ys"
  by (induction xs) (simp_all split: entry_outcome.splits)


lemma storedFor_mono:
  assumes "storedFor env puts a e"
  shows "storedFor env (before @ puts @ after) a e"
  using assms
  by (auto simp add: storedFor_def list_ex_iff split: sum.splits option.splits prod.splits)

text \<open>What one turn of the loop does with an entry that is a file.\<close>

lemma processEntry_file:
  assumes nd: "\<not> isDirectory e"
  shows "\<exists>out puts calls w'.
           processEntry env prof e (as, errs, w) =
             (as @ assetsOf [out], errs @ failuresOf [out], w') \<and>
           outcomeFor e out \<and>
           mediaAssets w' = mediaAssets w @ assetsOf [out] \<and>
           s3Puts w' = s3Puts w @ puts \<and> aiCalls w' = aiCalls w @ calls \<and>
           length calls = length puts \<and> list_all (oneFileCall prof) calls \<and>
           list_all (\<lambda>a. storedFor env puts a e) (assetsOf [out])"
proof (cases "getData e")
  case None
  with nd have "processEntry env prof e (as, errs, w) =
      (as @ assetsOf [Failed (name e) (Thrown ZipError)],
       errs @ failuresOf [Failed (name e) (Thrown ZipError)], w)"
    by (simp add: processEntry_def)
  moreover have "outcomeFor e (Failed (name e) (Thrown ZipError))"
    by (simp add: outcomeFor_def)
  ultimately show ?thesis
    by (intro exI [of _ "Failed (name e) (Thrown ZipError)"] exI [of _ "[]"] exI [of _ w]) simp
next
  case (Some body)
  show ?thesis
  proof (cases "resolveEntryType (name e)")
    case (Inl u)
    with nd Some have "processEntry env prof e (as, errs, w) =
        (as @ assetsOf [Failed (name e) UnsupportedFileType],
         errs @ failuresOf [Failed (name e) UnsupportedFileType], w)"
      by (simp add: processEntry_def)
    moreover have "outcomeFor e (Failed (name e) UnsupportedFileType)"
      by (simp add: outcomeFor_def)
    ultimately show ?thesis
      by (intro exI [of _ "Failed (name e) UnsupportedFileType"] exI [of _ "[]"] exI [of _ w]) simp
  next
    case (Inr km)
    obtain kind mime where km: "km = (kind, mime)" by (cases km)
    obtain key w1 where nk: "newMediaKey env (pid prof) (name e) w = (key, w1)"
      by (cases "newMediaKey env (pid prof) (name e) w")
    note k = newMediaKey_world [OF nk]
    obtain ures w2 where up: "uploadToS3 env key body mime w1 = (ures, w2)"
      by (cases "uploadToS3 env key body mime w1")
    show ?thesis
    proof (cases ures)
      case (Inl err)
      with up have "w2 = w1" by (simp add: uploadToS3_Inl)
      with nd Some Inr km nk up Inl have "processEntry env prof e (as, errs, w) =
          (as @ assetsOf [Failed (name e) (Thrown err)],
           errs @ failuresOf [Failed (name e) (Thrown err)], w1)"
        by (simp add: processEntry_def)
      moreover have "outcomeFor e (Failed (name e) (Thrown err))"
        by (simp add: outcomeFor_def)
      ultimately show ?thesis
        using k
        by (intro exI [of _ "Failed (name e) (Thrown err)"] exI [of _ "[]"] exI [of _ w1]) simp
    next
      case url: (Inr url)
      note u = uploadToS3_Inr [OF up [unfolded url]]
      let ?call = "([\<lparr>descFileName = name e, descFileType = kind, description = None\<rparr>],
                    professionType prof)"
      have call: "oneFileCall prof ?call" by (simp add: oneFileCall_def)
      obtain cres w3 where cc:
        "classifyAndCreate env prof (name e) kind url (length body) None w2 = (cres, w3)"
        by (cases "classifyAndCreate env prof (name e) kind url (length body) None w2")
      show ?thesis
      proof (cases cres)
        case (Inl err)
        note c = classifyAndCreate_Inl [OF cc [unfolded Inl]]
        from nd Some Inr km nk up url cc Inl have "processEntry env prof e (as, errs, w) =
            (as @ assetsOf [Failed (name e) (Thrown err)],
             errs @ failuresOf [Failed (name e) (Thrown err)], w3)"
          by (simp add: processEntry_def)
        moreover have "outcomeFor e (Failed (name e) (Thrown err))"
          by (simp add: outcomeFor_def)
        ultimately show ?thesis
          using k u c call
          by (intro exI [of _ "Failed (name e) (Thrown err)"] exI [of _ "[(key, body, mime)]"]
              exI [of _ "[?call]"] exI [of _ w3]) simp
      next
        case asset: (Inr a)
        note c = classifyAndCreate_Inr [OF cc [unfolded asset]]
        from nd Some Inr km nk up url cc asset have "processEntry env prof e (as, errs, w) =
            (as @ assetsOf [Uploaded a], errs @ failuresOf [Uploaded a], w3)"
          by (simp add: processEntry_def)
        moreover have "outcomeFor e (Uploaded a)"
          using c(1) Inr by (simp add: outcomeFor_def)
        moreover have "storedFor env [(key, body, mime)] a e"
          using nd Some Inr km c(1-4) u(1) by (simp add: storedFor_def)
        ultimately show ?thesis
          using k u c call
          by (intro exI [of _ "Uploaded a"] exI [of _ "[(key, body, mime)]"]
              exI [of _ "[?call]"] exI [of _ w3]) simp
      qed
    qed
  qed
qed

lemma processEntry_directory:
  "isDirectory e \<Longrightarrow> processEntry env prof e (as, errs, w) = (as, errs, w)"
  by (simp add: processEntry_def)

text \<open>The loop, from any accumulator: one outcome for each file, in the order of the entries.\<close>

lemma zipLoop_outcomes:
  "\<exists>outs puts calls w'.
     zipLoop env prof es (as, errs, w) = (as @ assetsOf outs, errs @ failuresOf outs, w') \<and>
     list_all2 outcomeFor (filter (\<lambda>e. \<not> isDirectory e) es) outs \<and>
     mediaAssets w' = mediaAssets w @ assetsOf outs \<and>
     s3Puts w' = s3Puts w @ puts \<and> aiCalls w' = aiCalls w @ calls \<and>
     length calls = length puts \<and> list_all (oneFileCall prof) calls \<and>
     list_all (\<lambda>a. list_ex (storedFor env puts a) es) (assetsOf outs)"
proof (induction es arbitrary: as errs w)
  case Nil
  show ?case
    by (intro exI [of _ "[]"] exI [of _ w]) simp
next
  case (Cons e es)
  show ?case
  proof (cases "isDirectory e")
    case True
    from Cons.IH [of as errs w] obtain outs puts calls w' where
      ih: "zipLoop env prof es (as, errs, w) = (as @ assetsOf outs, errs @ failuresOf outs, w')"
        "list_all2 outcomeFor (filter (\<lambda>e. \<not> isDirectory e) es) outs"
        "mediaAssets w' = mediaAssets w @ assetsOf outs"
        "s3Puts w' = s3Puts w @ puts" "aiCalls w' = aiCalls w @ calls"
        "length calls = length puts" "list_all (oneFileCall prof) calls"
        "list_all (\<lambda>a. list_ex (storedFor env puts a) es) (assetsOf outs)"
      by blast
    from ih(8) have "list_all (\<lambda>a. list_ex (storedFor env puts a) (e # es)) (assetsOf outs)"
      by (simp add: list_all_iff)
    with True ih show ?thesis
      by (intro exI [of _ outs] exI [of _ puts] exI [of _ calls] exI [of _ w'])
        (simp add: processEntry_directory)
  next
    case False
    from processEntry_file [OF False, of env prof as errs w]
    obtain out puts1 calls1 w1 where
      st: "processEntry env prof e (as, errs, w) =
             (as @ assetsOf [out], errs @ failuresOf [out], w1)"
        "outcomeFor e out" "mediaAssets w1 = mediaAssets w @ assetsOf [out]"
        "s3Puts w1 = s3Puts w @ puts1" "aiCalls w1 = aiCalls w @ calls1"
        "length calls1 = length puts1" "list_all (oneFileCall prof) calls1"
        "list_all (\<lambda>a. storedFor env puts1 a e) (assetsOf [out])"
      by blast
    from Cons.IH [of "as @ assetsOf [out]" "errs @ failuresOf [out]" w1]
    obtain outs puts2 calls2 w' where
      ih: "zipLoop env prof es (as @ assetsOf [out], errs @ failuresOf [out], w1) =
             ((as @ assetsOf [out]) @ assetsOf outs, (errs @ failuresOf [out]) @ failuresOf outs, w')"
        "list_all2 outcomeFor (filter (\<lambda>e. \<not> isDirectory e) es) outs"
        "mediaAssets w' = mediaAssets w1 @ assetsOf outs"
        "s3Puts w' = s3Puts w1 @ puts2" "aiCalls w' = aiCalls w1 @ calls2"
        "length calls2 = length puts2" "list_all (oneFileCall prof) calls2"
        "list_all (\<lambda>a. list_ex (storedFor env puts2 a) es) (assetsOf outs)"
      by blast
    have split_assets: "assetsOf (out # outs) = assetsOf [out] @ assetsOf outs"
      and split_failures: "failuresOf (out # outs) = failuresOf [out] @ failuresOf outs"
      using assetsOf_append [of "[out]" outs] failuresOf_append [of "[out]" outs] by simp_all
    have run: "zipLoop env prof (e # es) (as, errs, w) =
        (as @ assetsOf (out # outs), errs @ failuresOf (out # outs), w')"
      using st(1) ih(1) by (simp only: zipLoop.simps split_assets split_failures append_assoc)
    have rel: "list_all2 outcomeFor (filter (\<lambda>e. \<not> isDirectory e) (e # es)) (out # outs)"
      using False st(2) ih(2) by simp
    have rows: "mediaAssets w' = mediaAssets w @ assetsOf (out # outs)"
      using st(3) ih(3) by (simp only: split_assets append_assoc)
    have puts: "s3Puts w' = s3Puts w @ (puts1 @ puts2)"
      and calls: "aiCalls w' = aiCalls w @ (calls1 @ calls2)"
      using st(4,5) ih(4,5) by simp_all
    have len: "length (calls1 @ calls2) = length (puts1 @ puts2)"
      using st(6) ih(6) by simp
    have one: "list_all (oneFileCall prof) (calls1 @ calls2)"
      using st(7) ih(7) by simp
    have first: "list_all (\<lambda>a. list_ex (storedFor env (puts1 @ puts2) a) (e # es)) (assetsOf [out])"
    proof -
      have "storedFor env puts1 a e \<Longrightarrow> storedFor env (puts1 @ puts2) a e" for a
        using storedFor_mono [of env puts1 a e "[]" puts2] by simp
      with st(8) show ?thesis by (simp add: list_all_iff)
    qed
    have later: "list_all (\<lambda>a. list_ex (storedFor env (puts1 @ puts2) a) (e # es)) (assetsOf outs)"
    proof -
      have "storedFor env puts2 a x \<Longrightarrow> storedFor env (puts1 @ puts2) a x" for a x
        using storedFor_mono [of env puts2 a x puts1 "[]"] by simp
      with ih(8) show ?thesis by (auto simp add: list_all_iff list_ex_iff)
    qed
    have stored: "list_all (\<lambda>a. list_ex (storedFor env (puts1 @ puts2) a) (e # es))
        (assetsOf (out # outs))"
      using first later by (simp only: split_assets list_all_append)
    from run rel rows puts calls len one stored show ?thesis
      by (intro exI [of _ "out # outs"] exI [of _ "puts1 @ puts2"] exI [of _ "calls1 @ calls2"]
          exI [of _ w'] conjI)
  qed
qed

section \<open>Facts about outcomes and the sample archive\<close>






lemma sample_resolve:
  "resolveEntryType ''a.jpg'' = Inr (Image, ''image/jpeg'')"
  "resolveEntryType ''b.mp4'' = Inr (Video, ''video/mp4'')"
  "resolveEntryType ''c.exe'' = Inl UnsupportedType"
  by code_simp+

lemma sample_zip_run:
  "\<exists>body w'. uploadZipArchive sampleEnv zipRequest emptyWorld = (Responded 201 body, w') \<and>
     map fileName (uploadedAssets body) = [''a.jpg'', ''b.mp4''] \<and>
     map fileType (uploadedAssets body) = [Image, Video] \<and>
     errors body = Some [(''c.exe'', UnsupportedFileType)] \<and>
     total (summary body) = 3 \<and> successful (summary body) = 2 \<and> failed (summary body) = 1 \<and>
     mediaAssets w' = uploadedAssets body \<and> length (s3Puts w') = 2 \<and>
     aiCalls w' =
       [([\<lparr>descFileName = ''a.jpg'', descFileType = Image, description = None\<rparr>], ''photographer''),
        ([\<lparr>descFileName = ''b.mp4'', descFileType = Video, description = None\<rparr>], ''photographer'')]"
  by (simp add: uploadZipArchive_def zipRequest_def zipFile_def sampleEnv_def sampleEntries_def
      sampleProfile_def emptyWorld_def processEntry_def sample_resolve newMediaKey_def
      uploadToS3_def classifyAndCreate_def analyzeMedia_def createMediaAsset_def elemAt_def
      orElse_def Let_def)

section \<open>Claims about type resolution\<close>

text \<open>
  C6. Type resolution maps \<open>photo.JPG\<close> to the kind image with content type
  \<open>image/jpeg\<close>, maps \<open>notes.xyz\<close> to the failure \<open>UnsupportedType\<close>, and does not
  look at the case of the extension: whatever the stem and the extension, the name with
  the extension in upper case resolves as the name with the extension in lower case.
\<close>

theorem resolveEntryType_case_insensitive:
  "resolveEntryType ''photo.JPG'' = Inr (Image, ''image/jpeg'') \<and>
   resolveEntryType ''notes.xyz'' = Inl UnsupportedType \<and>
   resolveEntryType (stem @ toUpperCase ext) = resolveEntryType (stem @ toLowerCase ext)"
proof -
  have photo: "resolveEntryType ''photo.JPG'' = Inr (Image, ''image/jpeg'')"
    by code_simp
  have xyz: "resolveEntryType ''notes.xyz'' = Inl UnsupportedType"
    by code_simp
  have "toLowerCase (stem @ toUpperCase ext) = toLowerCase (stem @ toLowerCase ext)"
    by (simp add: toLowerCase_append toLowerCase_toUpperCase toLowerCase_idem)
  then have "resolveEntryType (stem @ toUpperCase ext) = resolveEntryType (stem @ toLowerCase ext)"
    by (rule resolveEntryType_cong)
  with photo xyz show ?thesis by simp
qed

theorem resolveEntryType_case_insensitive_witness:
  "resolveEntryType (''clip'' @ toUpperCase ''.mp4'') = Inr (Video, ''video/mp4'') \<and>
   resolveEntryType (''clip'' @ toLowerCase ''.mp4'') = Inr (Video, ''video/mp4'')"
proof -
  have "resolveEntryType (''clip'' @ toLowerCase ''.mp4'') = Inr (Video, ''video/mp4'')"
    by code_simp
  then show ?thesis
    using resolveEntryType_case_insensitive [of "''clip''" "''.mp4''"] by simp
qed

section \<open>Claims about storage keys\<close>

text \<open>
  C7, as the code has it. For every owner and file name \<open>generateMediaKey\<close> returns
  \<open>media/{owner}/{timestamp}-{hash}.{ext}\<close>, where \<open>ext\<close> is the text after the last dot of
  the file name exactly as it was written, with no change of case; a file name without a
  dot is taken whole as \<open>ext\<close>.
\<close>

theorem generateMediaKey_form:
  "(CHR ''.'' \<notin> set ext \<longrightarrow>
      generateMediaKey t r owner (stem @ ''.'' @ ext) =
        ''media/'' @ owner @ ''/'' @ (showNat t @ ''-'' @ toHex r) @ ''.'' @ ext) \<and>
   (CHR ''.'' \<notin> set fname \<longrightarrow>
      generateMediaKey t r owner fname =
        ''media/'' @ owner @ ''/'' @ (showNat t @ ''-'' @ toHex r) @ ''.'' @ fname)"
  by (simp add: generateMediaKey_def interpolate_def pop_split_extension pop_split_no_dot
      del: append_Cons)

theorem generateMediaKey_form_witness:
  "CHR ''.'' \<notin> set ''JPG'' \<and> CHR ''.'' \<notin> set ''README'' \<and>
   generateMediaKey 1700000000000 [1, 2, 3, 4, 5, 6, 7, 255] ''p1'' (''photo'' @ ''.'' @ ''JPG'') =
     ''media/p1/1700000000000-01020304050607ff.JPG'' \<and>
   generateMediaKey 1700000000000 [1, 2, 3, 4, 5, 6, 7, 255] ''p1'' ''README'' =
     ''media/p1/1700000000000-01020304050607ff.README''"
  using generateMediaKey_form [of "''JPG''" 1700000000000 "[1, 2, 3, 4, 5, 6, 7, 255]" "''p1''"
      "''photo''" "''README''"]
  by (simp add: showNat_example toHex_example)

text \<open>
  C7 as stated fails: the key made for \<open>photo.JPG\<close> ends in \<open>.JPG\<close>, not in the
  lower-cased \<open>.jpg\<close>.
\<close>

theorem generateMediaKey_keeps_case_counterexample:
  "generateMediaKey 1700000000000 [1, 2, 3, 4, 5, 6, 7, 255] ''p1'' ''photo.JPG'' =
     ''media/p1/1700000000000-01020304050607ff.JPG'' \<and>
   generateMediaKey 1700000000000 [1, 2, 3, 4, 5, 6, 7, 255] ''p1'' ''photo.JPG'' \<noteq>
     ''media/p1/1700000000000-01020304050607ff.'' @ toLowerCase ''JPG''"
proof -
  have ext: "pop (split ''photo.JPG'' ''.'') = Some ''JPG''" by code_simp
  have low: "toLowerCase ''JPG'' = ''jpg''" by code_simp
  show ?thesis
    by (simp add: generateMediaKey_def interpolate_def ext low showNat_example toHex_example)
qed

text \<open>
  C8. For one owner and one file name, two keys made from different uniqueness tokens (the
  clock reading together with the eight random bytes) are different keys.
\<close>

theorem generateMediaKey_token_injective:
  assumes "length r1 = 8" and "length r2 = 8" and "(t1, r1) \<noteq> (t2, r2)"
  shows "generateMediaKey t1 r1 owner fname \<noteq> generateMediaKey t2 r2 owner fname"
proof
  assume "generateMediaKey t1 r1 owner fname = generateMediaKey t2 r2 owner fname"
  then have "showNat t1 @ ''-'' @ toHex r1 = showNat t2 @ ''-'' @ toHex r2"
    by (simp add: generateMediaKey_def del: append_Cons)
  with assms(1,2) have "t1 = t2 \<and> r1 = r2"
    by (intro token_inj) simp_all
  with assms(3) show False by simp
qed

theorem generateMediaKey_token_injective_witness:
  "length [1, 2, 3, 4, 5, 6, 7, 255 :: 8 word] = 8 \<and> length [1, 2, 3, 4, 5, 6, 7, 254 :: 8 word] = 8 \<and>
   (1700000000000 :: nat, [1, 2, 3, 4, 5, 6, 7, 255 :: 8 word]) \<noteq> (1700000000000, [1, 2, 3, 4, 5, 6, 7, 254]) \<and>
   generateMediaKey 1700000000000 [1, 2, 3, 4, 5, 6, 7, 255] ''p1'' ''photo.JPG'' \<noteq>
   generateMediaKey 1700000000000 [1, 2, 3, 4, 5, 6, 7, 254] ''p1'' ''photo.JPG''"
proof -
  have l1: "length [1, 2, 3, 4, 5, 6, 7, 255 :: 8 word] = 8" by simp
  have l2: "length [1, 2, 3, 4, 5, 6, 7, 254 :: 8 word] = 8" by simp
  have ne: "(1700000000000 :: nat, [1, 2, 3, 4, 5, 6, 7, 255 :: 8 word]) \<noteq> (1700000000000, [1, 2, 3, 4, 5, 6, 7, 254])"
    by simp
  show ?thesis
    using generateMediaKey_token_injective [OF l1 l2 ne, of "''p1''" "''photo.JPG''"] l1 l2 ne
    by blast
qed

text \<open>
  C10, the code at a key it made itself. \<open>uploadToS3\<close> returns
  \<open>https://profolia-portfolios.s3.amazonaws.com/media/p1/1700000000000-01020304050607ff.jpg\<close>;
  \<open>deleteMediaAsset\<close> splits that URL at \<open>profolia-portfolios/\<close>, which does not occur in
  it, so the second piece is \<open>undefined\<close> and not the key. With the variable unset the
  separator is \<open>undefined/\<close> and the result is the same.
\<close>

theorem extractS3Key_loses_key:
  "extractS3Key (Some ''profolia-portfolios'')
     (s3Url (Some ''profolia-portfolios'') ''media/p1/1700000000000-01020304050607ff.jpg'') = None \<and>
   extractS3Key None (s3Url None ''media/p1/1700000000000-01020304050607ff.jpg'') = None \<and>
   s3Url (Some ''profolia-portfolios'') ''media/p1/1700000000000-01020304050607ff.jpg'' =
     ''https://profolia-portfolios.s3.amazonaws.com/media/p1/1700000000000-01020304050607ff.jpg''"
  by code_simp

section \<open>Claims about the classifier and the single upload\<close>

text \<open>
  C3 as stated fails: when the reply is text that is not JSON, \<open>analyzeMedia\<close> does not
  return the empty list; the \<open>SyntaxError\<close> of \<open>JSON.parse\<close> reaches the caller.
\<close>

theorem analyzeMedia_raises_counterexample:
  "fst (analyzeMedia malformedEnv
          [\<lparr>descFileName = ''resume.pdf'', descFileType = Document, description = None\<rparr>]
          ''photographer'' emptyWorld) = Inl SyntaxError"
  by (simp add: analyzeMedia_def malformedEnv_def sampleEnv_def emptyWorld_def)

text \<open>
  C3, as the code has it. For every batch and hint: when the first block of the reply is
  not a text block, so that there is no JSON at all, \<open>analyzeMedia\<close> returns the empty list
  and raises nothing; when the block is text that is not JSON, \<open>analyzeMedia\<close> raises the
  parse error to its caller. In both cases the call is recorded once.
\<close>

theorem analyzeMedia_missing_or_malformed:
  "(classifier env (length (aiCalls w)) fileData hint = NonTextBlock \<longrightarrow>
      fst (analyzeMedia env fileData hint w) = Inr (JArr [])) \<and>
   (classifier env (length (aiCalls w)) fileData hint = TextNotJson \<longrightarrow>
      fst (analyzeMedia env fileData hint w) = Inl SyntaxError) \<and>
   aiCalls (snd (analyzeMedia env fileData hint w)) = aiCalls w @ [(fileData, hint)]"
  by (simp add: analyzeMedia_def Let_def split: service_reply.splits)

theorem analyzeMedia_missing_or_malformed_witness:
  "classifier sampleEnv (length (aiCalls emptyWorld))
     [\<lparr>descFileName = ''resume.pdf'', descFileType = Document, description = None\<rparr>]
     ''photographer'' = NonTextBlock \<and>
   fst (analyzeMedia sampleEnv
          [\<lparr>descFileName = ''resume.pdf'', descFileType = Document, description = None\<rparr>]
          ''photographer'' emptyWorld) = Inr (JArr [])"
  using analyzeMedia_missing_or_malformed [of sampleEnv emptyWorld
      "[\<lparr>descFileName = ''resume.pdf'', descFileType = Document, description = None\<rparr>]"
      "''photographer''"]
  by (simp add: sampleEnv_def)




section \<open>Claims about the archive upload\<close>

text \<open>
  C9. When the bytes of the payload cannot be read as an archive, \<open>uploadZipArchive\<close>
  passes one error to \<open>next\<close> before it looks at any entry, and leaves the world as it
  was: no object is put, no row is created, no classifier call is made.
\<close>

theorem uploadZipArchive_unreadable:
  assumes "reqFile req = Some f" and "readZip env (buffer f) = None"
  shows "\<exists>e. uploadZipArchive env req w = (NextError e, w)"
  using assms by (simp add: uploadZipArchive_def split: option.splits)

theorem uploadZipArchive_unreadable_witness:
  "reqFile brokenRequest = Some brokenFile \<and> readZip sampleEnv (buffer brokenFile) = None \<and>
   uploadZipArchive sampleEnv brokenRequest emptyWorld = (NextError ZipError, emptyWorld)"
proof -
  have hasFile: "reqFile brokenRequest = Some brokenFile" by (simp add: brokenRequest_def)
  have unreadable: "readZip sampleEnv (buffer brokenFile) = None"
    by (simp add: sampleEnv_def brokenFile_def)
  have prof: "findProfile sampleEnv (userId brokenRequest) = Some sampleProfile"
    by (simp add: sampleEnv_def brokenRequest_def)
  from uploadZipArchive_unreadable [OF hasFile unreadable, of emptyWorld]
  obtain e where "uploadZipArchive sampleEnv brokenRequest emptyWorld = (NextError e, emptyWorld)"
    by blast
  moreover from this hasFile unreadable prof have "e = ZipError"
    by (simp add: uploadZipArchive_def)
  ultimately show ?thesis using hasFile unreadable by simp
qed






text \<open>
  C5. Every row that an archive upload adds to the media table stands for an entry of the
  archive that is a file, whose type resolved to the row's kind and whose bytes were put
  into the bucket during this request under the URL that the row carries. So no row is
  created for an entry whose type did not resolve or whose put failed.
\<close>

theorem uploadZipArchive_rows_only_for_uploaded:
  assumes run: "uploadZipArchive env req w = (res, w')"
  shows "\<exists>rows puts. mediaAssets w' = mediaAssets w @ rows \<and> s3Puts w' = s3Puts w @ puts \<and>
           list_all (\<lambda>a. list_ex (storedFor env puts a) (archiveEntries env req)) rows"
proof (cases "reqFile req")
  case None
  with run have "w' = w" by (simp add: uploadZipArchive_def)
  then show ?thesis by (intro exI [of _ "[]"]) simp
next
  case (Some f)
  show ?thesis
  proof (cases "findProfile env (userId req)")
    case None
    with run Some have "w' = w" by (simp add: uploadZipArchive_def)
    then show ?thesis by (intro exI [of _ "[]"]) simp
  next
    case prof: (Some prof)
    show ?thesis
    proof (cases "readZip env (buffer f)")
      case None
      with run Some prof have "w' = w" by (simp add: uploadZipArchive_def)
      then show ?thesis by (intro exI [of _ "[]"]) simp
    next
      case zip: (Some zipEntries)
      from zipLoop_outcomes [of env prof zipEntries "[]" "[]" w]
      obtain outs puts calls w1 where
        loop: "zipLoop env prof zipEntries ([], [], w) = (assetsOf outs, failuresOf outs, w1)"
        and eff: "mediaAssets w1 = mediaAssets w @ assetsOf outs" "s3Puts w1 = s3Puts w @ puts"
          "list_all (\<lambda>a. list_ex (storedFor env puts a) zipEntries) (assetsOf outs)"
        by auto
      from run Some prof zip loop have "w' = w1" by (simp add: uploadZipArchive_def)
      moreover have "archiveEntries env req = zipEntries"
        using Some zip by (simp add: archiveEntries_def)
      ultimately show ?thesis
        using eff by (intro exI [of _ "assetsOf outs"] exI [of _ puts]) simp
    qed
  qed
qed

theorem uploadZipArchive_rows_only_for_uploaded_witness:
  "\<exists>rows puts.
     mediaAssets (snd (uploadZipArchive sampleEnv zipRequest emptyWorld)) =
       mediaAssets emptyWorld @ rows \<and>
     s3Puts (snd (uploadZipArchive sampleEnv zipRequest emptyWorld)) = s3Puts emptyWorld @ puts \<and>
     list_all (\<lambda>a. list_ex (storedFor sampleEnv puts a) (archiveEntries sampleEnv zipRequest)) rows \<and>
     map fileName rows = [''a.jpg'', ''b.mp4'']"
proof -
  have run: "uploadZipArchive sampleEnv zipRequest emptyWorld =
      (fst (uploadZipArchive sampleEnv zipRequest emptyWorld),
       snd (uploadZipArchive sampleEnv zipRequest emptyWorld))"
    by simp
  from uploadZipArchive_rows_only_for_uploaded [OF run]
  obtain rows puts where
    eff: "mediaAssets (snd (uploadZipArchive sampleEnv zipRequest emptyWorld)) =
        mediaAssets emptyWorld @ rows"
      "s3Puts (snd (uploadZipArchive sampleEnv zipRequest emptyWorld)) = s3Puts emptyWorld @ puts"
      "list_all (\<lambda>a. list_ex (storedFor sampleEnv puts a) (archiveEntries sampleEnv zipRequest)) rows"
    by blast
  from sample_zip_run
  have "map fileName (mediaAssets (snd (uploadZipArchive sampleEnv zipRequest emptyWorld))) =
      [''a.jpg'', ''b.mp4'']"
    by auto
  with eff(1) have names: "map fileName rows = [''a.jpg'', ''b.mp4'']"
    by (simp add: emptyWorld_def)
  from eff names show ?thesis
    by (intro exI [of _ rows] exI [of _ puts] conjI)
qed

end
